theory Spec2Isabelle
  imports Complex_Main
begin

section \<open>JavaScript values used by the lyrics timeline\<close>

text \<open>
  The timeline of \<^verbatim>\<open>src/app/js/lyrics.js\<close> stores JavaScript Numbers in the \<^verbatim>\<open>time\<close>
  field of each word. A Number is modelled as an exact rational, or one of the three special
  values. Finite arithmetic is therefore exact (no rounding, no overflow, and zero carries no
  sign); the special values follow IEEE 754 as JavaScript does.
\<close>

datatype jsnum = Fin rat | PInf | NInf | NaN

text \<open>The values a \<^verbatim>\<open>time\<close> or \<^verbatim>\<open>duration\<close> field holds.\<close>

datatype jsval = Undefined | Null | Num jsnum

fun js_neg :: "jsnum \<Rightarrow> jsnum" where
  "js_neg (Fin a) = Fin (- a)"
| "js_neg PInf = NInf"
| "js_neg NInf = PInf"
| "js_neg NaN = NaN"

fun js_add :: "jsnum \<Rightarrow> jsnum \<Rightarrow> jsnum" where
  "js_add NaN _ = NaN"
| "js_add _ NaN = NaN"
| "js_add (Fin a) (Fin b) = Fin (a + b)"
| "js_add PInf NInf = NaN"
| "js_add NInf PInf = NaN"
| "js_add PInf _ = PInf"
| "js_add NInf _ = NInf"
| "js_add _ PInf = PInf"
| "js_add _ NInf = NInf"

definition js_sub :: "jsnum \<Rightarrow> jsnum \<Rightarrow> jsnum" where
  "js_sub a b = js_add a (js_neg b)"

text \<open>The sign of a number: \<open>1\<close>, \<open>-1\<close>, or \<open>0\<close> for zero and NaN.\<close>

fun js_sign :: "jsnum \<Rightarrow> int" where
  "js_sign (Fin a) = (if a < 0 then - 1 else if a = 0 then 0 else 1)"
| "js_sign PInf = 1"
| "js_sign NInf = - 1"
| "js_sign NaN = 0"

definition inf_of_sign :: "int \<Rightarrow> jsnum" where
  "inf_of_sign s = (if s < 0 then NInf else if s = 0 then NaN else PInf)"

fun js_mul :: "jsnum \<Rightarrow> jsnum \<Rightarrow> jsnum" where
  "js_mul NaN _ = NaN"
| "js_mul _ NaN = NaN"
| "js_mul (Fin a) (Fin b) = Fin (a * b)"
| "js_mul a b = inf_of_sign (js_sign a * js_sign b)"

text \<open>
  Division: a finite number divided by zero is an infinity of the sign of the dividend
  (zero is unsigned here, taken as \<open>+0\<close>), and \<open>0 / 0\<close> is NaN.
\<close>

fun js_div :: "jsnum \<Rightarrow> jsnum \<Rightarrow> jsnum" where
  "js_div NaN _ = NaN"
| "js_div _ NaN = NaN"
| "js_div (Fin a) (Fin b) = (if b = 0 then inf_of_sign (js_sign (Fin a)) else Fin (a / b))"
| "js_div (Fin a) _ = Fin 0"
| "js_div a (Fin b) = inf_of_sign (js_sign a * (if b < 0 then - 1 else 1))"
| "js_div _ _ = NaN"

text \<open>The relational operators on Numbers: every comparison with NaN is false.\<close>

fun js_le :: "jsnum \<Rightarrow> jsnum \<Rightarrow> bool" where
  "js_le NaN _ = False"
| "js_le _ NaN = False"
| "js_le (Fin a) (Fin b) = (a \<le> b)"
| "js_le NInf _ = True"
| "js_le _ PInf = True"
| "js_le _ _ = False"

definition js_ge :: "jsnum \<Rightarrow> jsnum \<Rightarrow> bool" where
  "js_ge a b = js_le b a"

fun js_lt :: "jsnum \<Rightarrow> jsnum \<Rightarrow> bool" where
  "js_lt NaN _ = False"
| "js_lt _ NaN = False"
| "js_lt (Fin a) (Fin b) = (a < b)"
| "js_lt PInf _ = False"
| "js_lt _ NInf = False"
| "js_lt _ _ = True"

definition js_gt :: "jsnum \<Rightarrow> jsnum \<Rightarrow> bool" where
  "js_gt a b = js_lt b a"

text \<open>\<^verbatim>\<open>Math.floor\<close> and \<^verbatim>\<open>isNaN\<close>.\<close>

fun js_floor :: "jsnum \<Rightarrow> jsnum" where
  "js_floor (Fin a) = Fin (of_int \<lfloor>a\<rfloor>)"
| "js_floor x = x"

fun isNaN :: "jsnum \<Rightarrow> bool" where
  "isNaN NaN = True"
| "isNaN _ = False"

text \<open>
  The remainder operator \<^verbatim>\<open>%\<close>: the result takes the sign of the dividend
  (the quotient is truncated toward zero).
\<close>

definition rat_trunc :: "rat \<Rightarrow> int" where
  "rat_trunc a = (if a < 0 then - \<lfloor>- a\<rfloor> else \<lfloor>a\<rfloor>)"

fun js_mod :: "jsnum \<Rightarrow> jsnum \<Rightarrow> jsnum" where
  "js_mod NaN _ = NaN"
| "js_mod _ NaN = NaN"
| "js_mod PInf _ = NaN"
| "js_mod NInf _ = NaN"
| "js_mod (Fin a) (Fin b) = (if b = 0 then NaN else Fin (a - b * of_int (rat_trunc (a / b))))"
| "js_mod (Fin a) _ = Fin a"

text \<open>ToNumber and ToBoolean on the values of a time field.\<close>

fun to_number :: "jsval \<Rightarrow> jsnum" where
  "to_number Undefined = NaN"
| "to_number Null = Fin 0"
| "to_number (Num n) = n"

fun truthy :: "jsval \<Rightarrow> bool" where
  "truthy (Num (Fin a)) = (a \<noteq> 0)"
| "truthy (Num PInf) = True"
| "truthy (Num NInf) = True"
| "truthy _ = False"

text \<open>The loose inequality \<^verbatim>\<open>!=\<close> on these values: null and undefined are equal to each
  other and to nothing else, and NaN differs from everything.\<close>

fun loose_eq :: "jsval \<Rightarrow> jsval \<Rightarrow> bool" where
  "loose_eq (Num NaN) _ = False"
| "loose_eq _ (Num NaN) = False"
| "loose_eq (Num a) (Num b) = (a = b)"
| "loose_eq (Num _) _ = False"
| "loose_eq _ (Num _) = False"
| "loose_eq _ _ = True"

definition nullish :: "jsval \<Rightarrow> bool" where
  "nullish v = (v = Null \<or> v = Undefined)"

section \<open>The timeline\<close>

record word =
  wtext :: string
  time :: jsval

datatype error = TypeError | AssertionError

text \<open>A \<^verbatim>\<open>timeChanged\<close> notification: the index and the new time.\<close>

type_synonym event = "nat \<times> jsval"

text \<open>
  \<^verbatim>\<open>this[index]\<close> for a Number \<^verbatim>\<open>index\<close>: an element only when the index is an integer
  in \<open>[0, length)\<close>, \<^verbatim>\<open>undefined\<close> (here \<open>None\<close>) otherwise.
\<close>

definition array_index :: "'a list \<Rightarrow> jsnum \<Rightarrow> nat option" where
  "array_index ws i =
     (case i of
        Fin r \<Rightarrow> (if of_int \<lfloor>r\<rfloor> = r \<and> 0 \<le> r \<and> r < of_nat (length ws)
                  then Some (nat \<lfloor>r\<rfloor>) else None)
      | _ \<Rightarrow> None)"

subsection \<open>setTimeOfWord\<close>

text \<open>The forward repair pass, \<^verbatim>\<open>for (var i=index+1; i<this.length; i++)\<close>.\<close>

function forward_pass :: "jsnum \<Rightarrow> nat \<Rightarrow> word list \<Rightarrow> event list \<Rightarrow> word list \<times> event list" where
  "forward_pass t i ws ev =
     (if i < length ws then
        (if truthy (time (ws ! i)) \<and> js_le (to_number (time (ws ! i))) t
         then forward_pass t (Suc i) (ws[i := (ws ! i)\<lparr>time := Null\<rparr>]) (ev @ [(i, Null)])
         else forward_pass t (Suc i) ws ev)
      else (ws, ev))"
  by pat_completeness auto
termination
  by (relation "measure (\<lambda>(t, i, ws, ev). length ws - i)") auto

text \<open>The backward repair pass, \<^verbatim>\<open>for (var i=index-1; i>=0; i--)\<close>; the first argument
  of the recursion is \<open>i + 1\<close>.\<close>

fun backward_pass :: "jsnum \<Rightarrow> nat \<Rightarrow> word list \<Rightarrow> event list \<Rightarrow> word list \<times> event list" where
  "backward_pass t 0 ws ev = (ws, ev)"
| "backward_pass t (Suc i) ws ev =
     (if truthy (time (ws ! i)) \<and> js_ge (to_number (time (ws ! i))) t
      then backward_pass t i (ws[i := (ws ! i)\<lparr>time := Null\<rparr>]) (ev @ [(i, Null)])
      else backward_pass t i ws ev)"

text \<open>
  \<^verbatim>\<open>Lyrics.prototype.setTimeOfWord\<close>. Reading \<^verbatim>\<open>this[index].time\<close> of a missing element
  throws a TypeError before anything is changed. The result is the updated word list and
  the notifications emitted, in order.
\<close>

definition setTimeOfWord :: "word list \<Rightarrow> jsnum \<Rightarrow> jsval \<Rightarrow> error + (word list \<times> event list)" where
  "setTimeOfWord ws index t =
     (case array_index ws index of
        None \<Rightarrow> Inl TypeError
      | Some k \<Rightarrow>
          (let hasChanged = \<not> loose_eq (time (ws ! k)) t;
               ws1 = ws[k := (ws ! k)\<lparr>time := t\<rparr>];
               ev1 = (if hasChanged then [(k, t)] else [])
           in if nullish t then Inr (ws1, ev1)
              else (case forward_pass (to_number t) (Suc k) ws1 ev1 of
                      (ws2, ev2) \<Rightarrow> Inr (backward_pass (to_number t) k ws2 ev2))))"

declare forward_pass.simps [simp del]

text \<open>A run of calls. A call that throws leaves the timeline as it was (the exception is
  raised before the first assignment), and the caller goes on with the next call.\<close>

fun run_calls :: "word list \<Rightarrow> (jsnum \<times> jsval) list \<Rightarrow> word list" where
  "run_calls ws [] = ws"
| "run_calls ws ((index, t) # cs) =
     (case setTimeOfWord ws index t of
        Inl e \<Rightarrow> run_calls ws cs
      | Inr (ws', ev) \<Rightarrow> run_calls ws' cs)"

subsection \<open>parseInt applied to a Number\<close>

text \<open>
  \<^verbatim>\<open>parseInt(x)\<close> converts the Number to its string and reads the leading integer. For
  \<open>10\<^sup>-\<^sup>6 \<le> |x| < 10\<^sup>2\<^sup>1\<close> (and for zero) the string is in decimal notation and the result
  is \<open>x\<close> truncated toward zero. Outside that range the string is in exponent notation
  (\<^verbatim>\<open>1.5e-7\<close>), and the result is the leading digit with the sign. NaN and the
  infinities have no digits.
\<close>

function lead_big :: "nat \<Rightarrow> nat" where
  "lead_big n = (if n < 10 then n else lead_big (n div 10))"
  by pat_completeness auto
termination
  by (relation "measure id") auto

declare lead_big.simps [simp del]

function lead_small :: "rat \<Rightarrow> int" where
  "lead_small x = (if x \<le> 0 \<or> 1 \<le> x then \<lfloor>x\<rfloor> else lead_small (x * 10))"
  by pat_completeness auto
termination
proof (relation "measure (\<lambda>x. nat \<lfloor>1 / x\<rfloor>)")
  show "wf (measure (\<lambda>x::rat. nat \<lfloor>1 / x\<rfloor>))" by simp
next
  fix x :: rat
  assume a: "\<not> (x \<le> 0 \<or> 1 \<le> x)"
  then have x: "0 < x" "x < 1" by auto
  define y where "y = 1 / x"
  have y: "1 \<le> y" unfolding y_def using x by (simp add: field_simps)
  then have one: "1 \<le> \<lfloor>y\<rfloor>" by (simp add: le_floor_iff)
  have "y < of_int \<lfloor>y\<rfloor> + 1" using floor_correct [of y] by simp
  also have "\<dots> \<le> 10 * of_int \<lfloor>y\<rfloor>"
  proof -
    have "(1::rat) \<le> of_int \<lfloor>y\<rfloor>" using y by simp
    then show ?thesis by linarith
  qed
  finally have "y / 10 < of_int \<lfloor>y\<rfloor>" by simp
  then have "\<lfloor>y / 10\<rfloor> < \<lfloor>y\<rfloor>" by (simp only: floor_less_iff)
  moreover have "1 / (x * 10) = y / 10" unfolding y_def by (simp add: field_simps)
  ultimately have "\<lfloor>1 / (x * 10)\<rfloor> < \<lfloor>y\<rfloor>" by (simp only:)
  then have "nat \<lfloor>1 / (x * 10)\<rfloor> < nat \<lfloor>1 / x\<rfloor>" using one unfolding y_def by linarith
  then show "(x * 10, x) \<in> measure (\<lambda>x. nat \<lfloor>1 / x\<rfloor>)" by simp
qed

declare lead_small.simps [simp del]

definition parseInt_num :: "jsnum \<Rightarrow> jsnum" where
  "parseInt_num x =
     (case x of
        Fin r \<Rightarrow>
          (if r = 0 then Fin 0
           else if \<bar>r\<bar> < 1 / 10 ^ 6 then Fin (of_int (js_sign x * lead_small \<bar>r\<bar>))
           else if 10 ^ 21 \<le> \<bar>r\<bar> then Fin (of_int (js_sign x * int (lead_big (nat \<lfloor>\<bar>r\<bar>\<rfloor>))))
           else Fin (of_int (rat_trunc r)))
      | _ \<Rightarrow> NaN)"

subsection \<open>getIndexForTime\<close>

text \<open>
  The loop of \<^verbatim>\<open>getIndexForTime\<close>, with the anchor \<^verbatim>\<open>earlierTimestamp\<close>,
  \<^verbatim>\<open>earlierIndex\<close> as arguments. Falling out of the loop returns \<^verbatim>\<open>undefined\<close>.
\<close>

function index_loop :: "word list \<Rightarrow> jsval \<Rightarrow> jsnum \<Rightarrow> nat \<Rightarrow> jsnum \<Rightarrow> nat \<Rightarrow> jsval" where
  "index_loop ws duration timestamp i earlierTimestamp earlierIndex =
     (if i < length ws then
        (let word = ws ! i;
             isLastWord = (int i = int (length ws) - 1);
             timeOfThisWord = (if \<not> truthy (time word) \<and> isLastWord then duration else time word)
         in if isLastWord \<or> (truthy timeOfThisWord \<and> js_ge (to_number timeOfThisWord) timestamp)
            then (let relPosBetweenBounds =
                        js_div (js_sub timestamp earlierTimestamp)
                               (js_sub (to_number timeOfThisWord) earlierTimestamp);
                      index = js_add (Fin (of_nat earlierIndex))
                                (js_mul relPosBetweenBounds (Fin (of_nat i - of_nat earlierIndex)))
                  in Num (parseInt_num index))
            else if truthy (time word)
                 then index_loop ws duration timestamp (Suc i) (to_number (time word)) i
                 else index_loop ws duration timestamp (Suc i) earlierTimestamp earlierIndex)
      else Undefined)"
  by pat_completeness auto
termination
  by (relation "measure (\<lambda>(ws, d, ts, i, et, ei). length ws - i)") auto

declare index_loop.simps [simp del]

text \<open>\<^verbatim>\<open>Lyrics.prototype.getIndexForTime\<close>; \<^verbatim>\<open>assert\<close> throws when the duration is falsy.\<close>

definition getIndexForTime :: "word list \<Rightarrow> jsval \<Rightarrow> jsnum \<Rightarrow> error + jsval" where
  "getIndexForTime ws duration timestamp =
     (if \<not> truthy duration then Inl AssertionError
      else Inr (index_loop ws duration timestamp 0 (Fin 0) 0))"

subsection \<open>getApproximateTime\<close>

text \<open>The argument of \<^verbatim>\<open>getApproximateTime\<close>: a Number, null or undefined (reading
  \<^verbatim>\<open>.constructor\<close> of them throws), or a value of another type (the assertion fails).\<close>

datatype jsarg = ANum jsnum | ANullish | AOther

text \<open>
  The search for the nearest earlier timestamp, \<^verbatim>\<open>for (var i=index-1; i>=0; i--)\<close>. The
  counter is a Number: a counter that is not an index of the array reads \<^verbatim>\<open>undefined\<close>, and
  \<^verbatim>\<open>undefined.time\<close> throws. The result is the anchor found, if any.
\<close>

function earlier_loop :: "word list \<Rightarrow> rat \<Rightarrow> error + (nat \<times> jsval) option" where
  "earlier_loop ws i =
     (if 0 \<le> i then
        (case array_index ws (Fin i) of
           None \<Rightarrow> Inl TypeError
         | Some k \<Rightarrow> (if truthy (time (ws ! k)) then Inr (Some (k, time (ws ! k)))
                     else earlier_loop ws (i - 1)))
      else Inr None)"
  by pat_completeness auto
termination
  by (relation "measure (\<lambda>(ws, i). nat (\<lfloor>i\<rfloor> + 1))") auto

declare earlier_loop.simps [simp del]

text \<open>The search for the nearest later timestamp, \<^verbatim>\<open>for (var i=index+1; i<this.length; i++)\<close>.\<close>

function later_loop :: "word list \<Rightarrow> rat \<Rightarrow> error + (nat \<times> jsval) option" where
  "later_loop ws i =
     (if i < of_nat (length ws) then
        (case array_index ws (Fin i) of
           None \<Rightarrow> Inl TypeError
         | Some k \<Rightarrow> (if truthy (time (ws ! k)) then Inr (Some (k, time (ws ! k)))
                     else later_loop ws (i + 1)))
      else Inr None)"
  by pat_completeness auto
termination
proof (relation "measure (\<lambda>(ws, i). nat \<lceil>of_nat (length ws) - i\<rceil>)")
  show "wf (measure (\<lambda>(ws :: word list, i :: rat). nat \<lceil>of_nat (length ws) - i\<rceil>))" by simp
next
  fix ws :: "word list" and i :: rat
  assume lt: "i < of_nat (length ws)"
  have "of_nat (length ws) - (i + 1) = (of_nat (length ws) - i) - 1" by simp
  then have "\<lceil>of_nat (length ws) - (i + 1)\<rceil> = \<lceil>of_nat (length ws) - i\<rceil> - 1"
    by (simp only: ceiling_diff_one)
  moreover have "0 < \<lceil>of_nat (length ws) - i\<rceil>" using lt by (simp add: less_ceiling_iff)
  ultimately show "((ws, i + 1), (ws, i)) \<in> measure (\<lambda>(ws, i). nat \<lceil>of_nat (length ws) - i\<rceil>)"
    by simp
qed

declare later_loop.simps [simp del]

text \<open>The two loops started from a Number: with an infinite counter the first test of the
  loop decides, and NaN fails every test.\<close>

definition earlier_search :: "word list \<Rightarrow> jsnum \<Rightarrow> error + (nat \<times> jsval) option" where
  "earlier_search ws i =
     (case i of Fin r \<Rightarrow> earlier_loop ws r | PInf \<Rightarrow> Inl TypeError | _ \<Rightarrow> Inr None)"

definition later_search :: "word list \<Rightarrow> jsnum \<Rightarrow> error + (nat \<times> jsval) option" where
  "later_search ws i =
     (case i of Fin r \<Rightarrow> later_loop ws r | NInf \<Rightarrow> Inl TypeError | _ \<Rightarrow> Inr None)"

definition getApproximateTime :: "word list \<Rightarrow> jsval \<Rightarrow> jsarg \<Rightarrow> error + jsnum" where
  "getApproximateTime ws duration arg =
     (case arg of
        ANullish \<Rightarrow> Inl TypeError
      | AOther \<Rightarrow> Inl AssertionError
      | ANum index \<Rightarrow>
          (case earlier_search ws (js_sub index (Fin 1)) of
             Inl e \<Rightarrow> Inl e
           | Inr earlier \<Rightarrow>
               (case later_search ws (js_add index (Fin 1)) of
                  Inl e \<Rightarrow> Inl e
                | Inr later \<Rightarrow>
                    (let (earlierIndex, earlierTimestamp) =
                           (case earlier of None \<Rightarrow> (Fin 0, Fin 0)
                            | Some (k, t) \<Rightarrow> (Fin (of_nat k), to_number t));
                         (laterIndex, laterTimestamp) =
                           (case later of None \<Rightarrow> (Fin (of_nat (length ws) - 1), to_number duration)
                            | Some (k, t) \<Rightarrow> (Fin (of_nat k), to_number t));
                         relPos = js_div (js_sub index earlierIndex) (js_sub laterIndex earlierIndex)
                     in Inr (js_add earlierTimestamp
                               (js_mul relPos (js_sub laterTimestamp earlierTimestamp)))))))"

section \<open>The time formatter\<close>

text \<open>
  The string of an integer-valued Number, as \<^verbatim>\<open>'0' + h\<close> produces it: decimal digits,
  with a minus sign when negative (exact below \<open>10\<^sup>2\<^sup>1\<close>, where JavaScript changes to
  exponent notation).
\<close>

definition digit_char :: "nat \<Rightarrow> char" where
  "digit_char d = ''0123456789'' ! d"

function digits_of :: "nat \<Rightarrow> string" where
  "digits_of n = (if n < 10 then [digit_char n] else digits_of (n div 10) @ [digit_char (n mod 10)])"
  by pat_completeness auto
termination
  by (relation "measure id") auto

declare digits_of.simps [simp del]

definition int_to_string :: "int \<Rightarrow> string" where
  "int_to_string k = (if k < 0 then CHR ''-'' # digits_of (nat (- k)) else digits_of (nat k))"

fun number_to_string :: "jsnum \<Rightarrow> string" where
  "number_to_string (Fin r) = int_to_string \<lfloor>r\<rfloor>"
| "number_to_string PInf = ''Infinity''"
| "number_to_string NInf = ''-Infinity''"
| "number_to_string NaN = ''NaN''"

text \<open>One two-digit field of \<^verbatim>\<open>toTimer\<close>:
  \<^verbatim>\<open>isNaN( h ) ? '--' : ( h >= 10 ) ? h : '0' + h\<close>.\<close>

definition field2 :: "jsnum \<Rightarrow> string" where
  "field2 h = (if isNaN h then ''--''
               else if js_ge h (Fin 10) then number_to_string h
               else ''0'' @ number_to_string h)"

text \<open>The millisecond field:
  \<^verbatim>\<open>isNaN( ms ) ? '--' : ( ms >= 100 ) ? ms : ( ms > 10 ) ? '0' + ms : '00' + ms\<close>.\<close>

definition field3 :: "jsnum \<Rightarrow> string" where
  "field3 ms = (if isNaN ms then ''--''
                else if js_ge ms (Fin 100) then number_to_string ms
                else if js_gt ms (Fin 10) then ''0'' @ number_to_string ms
                else ''00'' @ number_to_string ms)"

text \<open>\<^verbatim>\<open>Lyrics.toTimer\<close>. An omitted \<^verbatim>\<open>withHours\<close> is falsy.\<close>

definition toTimer :: "jsval \<Rightarrow> bool \<Rightarrow> string" where
  "toTimer t withHours =
     (let tm = to_number t;
          h = field2 (js_floor (js_div tm (Fin 3600)));
          m = field2 (if withHours then js_floor (js_mod (js_div tm (Fin 60)) (Fin 60))
                      else js_floor (js_div tm (Fin 60)));
          s = field2 (js_floor (js_mod tm (Fin 60)));
          ms = field3 (js_floor (js_mul (js_sub tm (js_floor tm)) (Fin 1000)))
      in if withHours then h @ '':'' @ m @ '':'' @ s else m @ '':'' @ s @ ''.'' @ ms)"

section \<open>Strings and regular expressions of the LRC codec\<close>

text \<open>
  A JavaScript string is modelled as a \<^typ>\<open>string\<close>: the texts with code units below 256.
  Each regular expression of \<^verbatim>\<open>fromLRC\<close> is written as the function that computes its
  leftmost match with the backtracking priorities of the expression (greedy \<^verbatim>\<open>*\<close> longest
  first, lazy \<^verbatim>\<open>*?\<close> shortest first).
\<close>

definition nl :: char where "nl = CHR 0x0A"
definition cr :: char where "cr = CHR 0x0D"

text \<open>The class \<^verbatim>\<open>\s\<close>, which is also what \<^verbatim>\<open>trim\<close>, \<^verbatim>\<open>parseInt\<close> and \<^verbatim>\<open>parseFloat\<close>
  strip: tab, line feed, vertical tab, form feed, carriage return, space, no-break space.\<close>

definition is_space :: "char \<Rightarrow> bool" where
  "is_space c = (c = CHR 0x09 \<or> c = CHR 0x0A \<or> c = CHR 0x0B \<or> c = CHR 0x0C \<or> c = CHR 0x0D
                 \<or> c = CHR '' '' \<or> c = CHR 0xA0)"

text \<open>The class \<^verbatim>\<open>\d\<close>, and the characters that \<^verbatim>\<open>.\<close> does not match.\<close>

definition is_digit :: "char \<Rightarrow> bool" where
  "is_digit c = (c \<in> set ''0123456789'')"

definition is_line_terminator :: "char \<Rightarrow> bool" where
  "is_line_terminator c = (c = nl \<or> c = cr)"

definition trim :: "string \<Rightarrow> string" where
  "trim s = rev (dropWhile is_space (rev (dropWhile is_space s)))"



text \<open>\<^verbatim>\<open>.replace(/ +/g, " ")\<close>: every run of spaces becomes one space.\<close>

function collapse_spaces :: "string \<Rightarrow> string" where
  "collapse_spaces [] = []"
| "collapse_spaces (c # cs) =
     (if c = CHR '' '' then CHR '' '' # collapse_spaces (dropWhile (\<lambda>x. x = CHR '' '') cs)
      else c # collapse_spaces cs)"
  by pat_completeness auto
termination
  by (relation "measure length") (auto simp: less_Suc_eq_le length_dropWhile_le)

declare collapse_spaces.simps [simp del]

text \<open>\<^verbatim>\<open>.replace(/ +\n/g, "\n")\<close>: a run of spaces right before a line feed is removed.\<close>

function strip_spaces_before_newline :: "string \<Rightarrow> string" where
  "strip_spaces_before_newline [] = []"
| "strip_spaces_before_newline (c # cs) =
     (if c = CHR '' '' then
        (case dropWhile (\<lambda>x. x = CHR '' '') cs of
           [] \<Rightarrow> c # takeWhile (\<lambda>x. x = CHR '' '') cs
         | d # ds \<Rightarrow> (if d = nl then nl # strip_spaces_before_newline ds
                      else c # takeWhile (\<lambda>x. x = CHR '' '') cs @ d # strip_spaces_before_newline ds))
      else c # strip_spaces_before_newline cs)"
  by pat_completeness auto
termination
proof (relation "measure length")
  show "wf (measure (length :: string \<Rightarrow> nat))" by simp
next
  fix c :: char and cs :: string
  show "(cs, c # cs) \<in> measure length" by simp
next
  fix c d :: char and cs ds :: string
  assume "dropWhile (\<lambda>x. x = CHR '' '') cs = d # ds"
  then have "length (d # ds) \<le> length cs" using length_dropWhile_le [of "\<lambda>x. x = CHR '' ''" cs] by simp
  then show "(ds, c # cs) \<in> measure length" by simp
next
  fix c d :: char and cs ds :: string
  assume "dropWhile (\<lambda>x. x = CHR '' '') cs = d # ds"
  then have "length (d # ds) \<le> length cs" using length_dropWhile_le [of "\<lambda>x. x = CHR '' ''" cs] by simp
  then show "(ds, c # cs) \<in> measure length" by simp
qed

declare strip_spaces_before_newline.simps [simp del]

text \<open>\<^verbatim>\<open>.replace(/(?:\r\n|\r|\n)/g, '<br>\n')\<close>.\<close>

fun mark_line_breaks :: "string \<Rightarrow> string" where
  "mark_line_breaks [] = []"
| "mark_line_breaks [c] = (if c = cr \<or> c = nl then ''<br>'' @ [nl] else [c])"
| "mark_line_breaks (c # d # cs) =
     (if c = cr \<and> d = nl then ''<br>'' @ [nl] @ mark_line_breaks cs
      else if c = cr \<or> c = nl then ''<br>'' @ [nl] @ mark_line_breaks (d # cs)
      else c # mark_line_breaks (d # cs))"

text \<open>The normalisation that opens \<^verbatim>\<open>fromLRC\<close> and \<^verbatim>\<open>fromText\<close>. The second replace of the
  source removes the ideographic space U+3000, which no string of this model contains.\<close>

definition normalise :: "string \<Rightarrow> string" where
  "normalise text = mark_line_breaks (trim (strip_spaces_before_newline (collapse_spaces text)))"

text \<open>\<^verbatim>\<open>.split(/\r\n|\n/)\<close>; the accumulator is the line being read, reversed.\<close>

fun split_lines_acc :: "string \<Rightarrow> string \<Rightarrow> string list" where
  "split_lines_acc acc [] = [rev acc]"
| "split_lines_acc acc [c] = (if c = nl then [rev acc, []] else [rev (c # acc)])"
| "split_lines_acc acc (c # d # cs) =
     (if c = cr \<and> d = nl then rev acc # split_lines_acc [] cs
      else if c = nl then rev acc # split_lines_acc [] (d # cs)
      else split_lines_acc (c # acc) (d # cs))"

definition split_lines :: "string \<Rightarrow> string list" where
  "split_lines s = split_lines_acc [] s"

text \<open>\<^verbatim>\<open>.split(/\s+/g)\<close>: the pieces between the runs of whitespace, empty pieces at the
  ends included.\<close>

function split_spaces_acc :: "string \<Rightarrow> string \<Rightarrow> string list" where
  "split_spaces_acc acc [] = [rev acc]"
| "split_spaces_acc acc (c # cs) =
     (if is_space c then rev acc # split_spaces_acc [] (dropWhile is_space cs)
      else split_spaces_acc (c # acc) cs)"
  by pat_completeness auto
termination
  by (relation "measure (\<lambda>(acc, s). length s)") (auto simp: less_Suc_eq_le length_dropWhile_le)

declare split_spaces_acc.simps [simp del]

definition split_spaces :: "string \<Rightarrow> string list" where
  "split_spaces s = split_spaces_acc [] s"

text \<open>\<^verbatim>\<open>Array.prototype.toString\<close> on an array of strings: the elements joined by commas.\<close>

fun join_commas :: "string list \<Rightarrow> string" where
  "join_commas [] = []"
| "join_commas [x] = x"
| "join_commas (x # y # xs) = x @ '','' @ join_commas (y # xs)"

text \<open>The position of the last \<^verbatim>\<open>]\<close> of a string, if any.\<close>

fun last_bracket :: "string \<Rightarrow> nat option" where
  "last_bracket [] = None"
| "last_bracket (c # cs) =
     (case last_bracket cs of
        Some k \<Rightarrow> Some (Suc k)
      | None \<Rightarrow> (if c = CHR '']'' then Some 0 else None))"

text \<open>
  \<^verbatim>\<open>/^(\[)(\d*)(:)(.*)(\])(.*)/i\<close> on a line: groups 2, 4 and 6. Group 4 is greedy, so
  it ends at the last \<^verbatim>\<open>]\<close> before the first line terminator.
\<close>

definition match_line :: "string \<Rightarrow> (string \<times> string \<times> string) option" where
  "match_line s =
     (case s of
        [] \<Rightarrow> None
      | c # r \<Rightarrow>
          (if c \<noteq> CHR ''['' then None
           else (case dropWhile is_digit r of
                   [] \<Rightarrow> None
                 | d # r3 \<Rightarrow>
                     (if d \<noteq> CHR '':'' then None
                      else (let seg = takeWhile (\<lambda>x. \<not> is_line_terminator x) r3
                            in case last_bracket seg of
                                 None \<Rightarrow> None
                               | Some k \<Rightarrow> Some (takeWhile is_digit r, take k seg, drop (Suc k) seg))))))"

text \<open>Case-insensitive comparison with a lower-case ASCII pattern (flag \<^verbatim>\<open>i\<close>).\<close>

definition to_lower :: "char \<Rightarrow> char" where
  "to_lower c = (case List.find (\<lambda>(u, l). u = c) (zip ''ABCDEFGHIJKLMNOPQRSTUVWXYZ'' ''abcdefghijklmnopqrstuvwxyz'')
                 of Some (u, l) \<Rightarrow> l | None \<Rightarrow> c)"

definition starts_with_ci :: "string \<Rightarrow> string \<Rightarrow> bool" where
  "starts_with_ci p s = (map to_lower (take (length p) s) = p)"

text \<open>
  \<^verbatim>\<open>/(?:\[offset:)(.*)(?:])/i\<close>: group 1 of the leftmost match. At an occurrence of
  \<^verbatim>\<open>[offset:\<close> the greedy group runs to the last \<^verbatim>\<open>]\<close> of the line; an occurrence with no
  \<^verbatim>\<open>]\<close> after it on its line does not match.
\<close>

fun find_offset :: "string \<Rightarrow> string option" where
  "find_offset [] = None"
| "find_offset (c # cs) =
     (if starts_with_ci ''[offset:'' (c # cs) then
        (let seg = takeWhile (\<lambda>x. \<not> is_line_terminator x) (drop 8 (c # cs))
         in case last_bracket seg of
              Some k \<Rightarrow> Some (take k seg)
            | None \<Rightarrow> find_offset cs)
      else find_offset cs)"

text \<open>
  \<^verbatim>\<open>/(?:<)(\d*)(?::)(\S*?)(?:>)/i\<close> has a match: a \<^verbatim>\<open><\<close>, digits, a colon, and a \<^verbatim>\<open>>\<close>
  before the next whitespace. It decides whether the file is Enhanced LRC.
\<close>

fun has_inline_tag :: "string \<Rightarrow> bool" where
  "has_inline_tag [] = False"
| "has_inline_tag (c # cs) =
     ((c = CHR ''<'' \<and>
        (case dropWhile is_digit cs of
           [] \<Rightarrow> False
         | d # r \<Rightarrow> d = CHR '':'' \<and> CHR ''>'' \<in> set (takeWhile (\<lambda>x. \<not> is_space x) r)))
      \<or> has_inline_tag cs)"

text \<open>
  \<^verbatim>\<open>/(?: )(.*?)(?: |$)/i\<close>: the whole leftmost match, from a space to the next space or
  the end of the string. A space followed by a line terminator before the next space does
  not start a match.
\<close>

fun first_token :: "string \<Rightarrow> string option" where
  "first_token [] = None"
| "first_token (c # cs) =
     (if c = CHR '' '' then
        (let tok = takeWhile (\<lambda>x. x \<noteq> CHR '' '' \<and> \<not> is_line_terminator x) cs
         in case drop (length tok) cs of
              [] \<Rightarrow> Some (c # tok)
            | d # r \<Rightarrow> (if d = CHR '' '' then Some (c # tok @ [d]) else first_token cs))
      else first_token cs)"

text \<open>The lazy group 2 of the inline-tag expression: the text before the first \<^verbatim>\<open>> \<close>, and
  what follows it; no line terminator may come before.\<close>

fun find_gt_space :: "string \<Rightarrow> (string \<times> string) option" where
  "find_gt_space [] = None"
| "find_gt_space [c] = None"
| "find_gt_space (c # d # cs) =
     (if c = CHR ''>'' \<and> d = CHR '' '' then Some ([], cs)
      else if is_line_terminator c then None
      else (case find_gt_space (d # cs) of
              None \<Rightarrow> None
            | Some (g, r) \<Rightarrow> Some (c # g, r)))"

text \<open>
  \<^verbatim>\<open>/(?:<)(\d*)(?::)(.*?)(?:>) (.*?)(?: |\n|$)/g\<close> matched at the head of a string:
  groups 1 to 3 and the text after the match.
\<close>

definition match_inline_at :: "string \<Rightarrow> (string \<times> string \<times> string \<times> string) option" where
  "match_inline_at s =
     (case s of
        [] \<Rightarrow> None
      | c # r \<Rightarrow>
          (if c \<noteq> CHR ''<'' then None
           else (case dropWhile is_digit r of
                   [] \<Rightarrow> None
                 | d # r3 \<Rightarrow>
                     (if d \<noteq> CHR '':'' then None
                      else (case find_gt_space r3 of
                              None \<Rightarrow> None
                            | Some (g2, r4) \<Rightarrow>
                                (let g3 = takeWhile (\<lambda>x. x \<noteq> CHR '' '' \<and> \<not> is_line_terminator x) r4
                                 in case drop (length g3) r4 of
                                      [] \<Rightarrow> Some (takeWhile is_digit r, g2, g3, [])
                                    | e # r6 \<Rightarrow> (if e = CHR '' '' \<or> e = nl
                                                 then Some (takeWhile is_digit r, g2, g3, r6)
                                                 else None)))))))"

text \<open>The loop \<^verbatim>\<open>for (x = 1; matches = regex.exec(line[6]); x++)\<close>: the successive matches
  of the global expression, each search starting where the last match ended.\<close>

function inline_matches :: "string \<Rightarrow> (string \<times> string \<times> string) list" where
  "inline_matches [] = []"
| "inline_matches (c # cs) =
     (case match_inline_at (c # cs) of
        Some (g1, g2, g3, rest) \<Rightarrow> (g1, g2, g3) # inline_matches rest
      | None \<Rightarrow> inline_matches cs)"
  by pat_completeness auto
termination
proof (relation "measure length")
  show "wf (measure (length :: string \<Rightarrow> nat))" by simp
next
  fix c :: char and cs :: string
  show "(cs, c # cs) \<in> measure length" by simp
next
  fix c :: char and cs :: string and x2 g1 x2a g2 x2b g3 rest
  assume m: "match_inline_at (c # cs) = Some x2" and x: "(g1, x2a) = x2" "(g2, x2b) = x2a" "(g3, rest) = x2b"
  have fg: "find_gt_space s = Some (g, r) \<Longrightarrow> length r < length s" for s g r
    by (induct s arbitrary: g r rule: find_gt_space.induct) (auto split: if_splits option.splits)
  from m x have m': "match_inline_at (c # cs) = Some (g1, g2, g3, rest)" by simp
  obtain d r3 where dw: "dropWhile is_digit cs = d # r3"
    using m' by (cases "dropWhile is_digit cs")
      (auto simp: match_inline_at_def split: if_splits simp del: dropWhile_eq_Nil_conv)
  obtain h r4 where g: "find_gt_space r3 = Some (h, r4)"
    using m' dw by (cases "find_gt_space r3") (auto simp: match_inline_at_def split: if_splits)
  define k where "k = length (takeWhile (\<lambda>x. x \<noteq> CHR '' '' \<and> \<not> is_line_terminator x) r4)"
  have "rest = [] \<or> (\<exists>e. drop k r4 = e # rest)"
    using m' dw g unfolding k_def
    by (cases "drop (length (takeWhile (\<lambda>x. x \<noteq> CHR '' '' \<and> \<not> is_line_terminator x) r4)) r4")
       (auto simp: match_inline_at_def Let_def split: if_splits)
  then have r: "length rest \<le> length r4"
  proof
    assume "rest = []" then show ?thesis by simp
  next
    assume "\<exists>e. drop k r4 = e # rest"
    then obtain e where "drop k r4 = e # rest" by blast
    then have "length (e # rest) = length r4 - k" by (metis length_drop)
    then show ?thesis by simp
  qed
  have "length (dropWhile is_digit cs) \<le> length cs" by (rule length_dropWhile_le)
  with dw have "length r3 < length cs" by simp
  with fg [OF g] r show "(rest, c # cs) \<in> measure length" by simp
qed

declare inline_matches.simps [simp del]

text \<open>The lazy group 2 of the closing-tag expression: non-space characters up to a
  \<^verbatim>\<open>>\<close> that ends the string or stands before a line feed.\<close>

fun close_search :: "string \<Rightarrow> string option" where
  "close_search [] = None"
| "close_search (c # cs) =
     (if c = CHR ''>'' \<and> (cs = [] \<or> hd cs = nl) then Some []
      else if is_space c then None
      else (case close_search cs of None \<Rightarrow> None | Some g \<Rightarrow> Some (c # g)))"

text \<open>\<^verbatim>\<open>/(?:<)(\d*)(?::)(\S*?)(?:>\n|>$)/i\<close>: groups 1 and 2 of the leftmost match.\<close>

fun find_last_tag :: "string \<Rightarrow> (string \<times> string) option" where
  "find_last_tag [] = None"
| "find_last_tag (c # cs) =
     (case (if c = CHR ''<'' then
              (case dropWhile is_digit cs of
                 [] \<Rightarrow> None
               | d # r \<Rightarrow> (if d = CHR '':'' then close_search r else None))
            else None) of
        Some g2 \<Rightarrow> Some (takeWhile is_digit cs, g2)
      | None \<Rightarrow> find_last_tag cs)"

subsection \<open>Numbers read from strings\<close>

definition digit_val :: "char \<Rightarrow> nat" where
  "digit_val c = length (takeWhile (\<lambda>x. x \<noteq> to_lower c) ''0123456789abcdef'')"

definition is_radix_digit :: "nat \<Rightarrow> char \<Rightarrow> bool" where
  "is_radix_digit radix c = (to_lower c \<in> set ''0123456789abcdef'' \<and> digit_val c < radix)"

definition radix_value :: "nat \<Rightarrow> string \<Rightarrow> nat" where
  "radix_value radix ds = foldl (\<lambda>a c. radix * a + digit_val c) 0 ds"

text \<open>An optional sign at the head of a string.\<close>

definition take_sign :: "string \<Rightarrow> int \<times> string" where
  "take_sign s =
     (case s of
        [] \<Rightarrow> (1, s)
      | c # r \<Rightarrow> (if c = CHR ''-'' then (- 1, r) else if c = CHR ''+'' then (1, r) else (1, s)))"

text \<open>\<^verbatim>\<open>parseInt(s)\<close> with no radix: leading whitespace, a sign, a \<^verbatim>\<open>0x\<close> prefix for radix
  16, then the longest run of digits; NaN when there is none.\<close>

definition parseInt_str :: "string \<Rightarrow> jsnum" where
  "parseInt_str s =
     (let (sign, t) = take_sign (dropWhile is_space s);
          (radix, u) = (if starts_with_ci ''0x'' t then (16, drop 2 t) else (10, t));
          ds = takeWhile (is_radix_digit radix) u
      in if ds = [] then NaN else Fin (of_int (sign * int (radix_value radix ds))))"

text \<open>
  The longest prefix that is a decimal literal without sign (digits with an optional
  fraction, or a fraction alone, then an optional complete exponent part): its value and the
  rest of the string.
\<close>

definition parse_mantissa :: "string \<Rightarrow> (rat \<times> string) option" where
  "parse_mantissa s =
     (let ip = takeWhile is_digit s; r1 = dropWhile is_digit s
      in case r1 of
           [] \<Rightarrow> (if ip = [] then None else Some (of_nat (radix_value 10 ip), r1))
         | c # r \<Rightarrow>
             (if c = CHR ''.'' then
                (let fp = takeWhile is_digit r
                 in if ip = [] \<and> fp = [] then None
                    else Some (of_nat (radix_value 10 ip)
                                 + of_nat (radix_value 10 fp) / 10 ^ length fp,
                               dropWhile is_digit r))
              else if ip = [] then None else Some (of_nat (radix_value 10 ip), r1)))"

definition parse_exponent :: "rat \<times> string \<Rightarrow> rat \<times> string" where
  "parse_exponent p =
     (case snd p of
        [] \<Rightarrow> p
      | c # r \<Rightarrow>
          (if c = CHR ''e'' \<or> c = CHR ''E'' then
             (let (sign, r') = take_sign r; es = takeWhile is_digit r'
              in if es = [] then p
                 else (if sign < 0 then fst p / 10 ^ radix_value 10 es
                       else fst p * 10 ^ radix_value 10 es,
                       dropWhile is_digit r'))
           else p))"

definition parse_decimal :: "string \<Rightarrow> (jsnum \<times> string) option" where
  "parse_decimal s =
     (let (sign, t) = take_sign s
      in if take 8 t = ''Infinity'' then Some (if sign < 0 then NInf else PInf, drop 8 t)
         else (case parse_mantissa t of
                 None \<Rightarrow> None
               | Some p \<Rightarrow> (let (v, r) = parse_exponent p in Some (Fin (of_int sign * v), r))))"

text \<open>\<^verbatim>\<open>parseFloat(s)\<close>.\<close>

definition parseFloat :: "string \<Rightarrow> jsnum" where
  "parseFloat s = (case parse_decimal (dropWhile is_space s) of None \<Rightarrow> NaN | Some (v, r) \<Rightarrow> v)"

text \<open>ToNumber on a string, as the division \<^verbatim>\<open>matches[1] / 1000\<close> applies it: the trimmed
  string must be empty (zero), a whole decimal literal, or a whole hexadecimal, octal or
  binary literal.\<close>

definition radix_literal :: "nat \<Rightarrow> string \<Rightarrow> jsnum" where
  "radix_literal radix ds =
     (if ds \<noteq> [] \<and> list_all (is_radix_digit radix) ds then Fin (of_nat (radix_value radix ds)) else NaN)"

definition string_to_number :: "string \<Rightarrow> jsnum" where
  "string_to_number s =
     (let t = trim s
      in if t = [] then Fin 0
         else if starts_with_ci ''0x'' t then radix_literal 16 (drop 2 t)
         else if starts_with_ci ''0o'' t then radix_literal 8 (drop 2 t)
         else if starts_with_ci ''0b'' t then radix_literal 2 (drop 2 t)
         else (case parse_decimal t of Some (v, []) \<Rightarrow> v | _ \<Rightarrow> NaN))"

section \<open>The LRC codec\<close>

text \<open>The time of a tag: \<^verbatim>\<open>(parseInt(m) * 60) + parseFloat(s)\<close>.\<close>

definition tag_time :: "string \<Rightarrow> string \<Rightarrow> jsnum" where
  "tag_time m s = js_add (js_mul (parseInt_str m) (Fin 60)) (parseFloat s)"

text \<open>The optional \<^verbatim>\<open>[offset:...]\<close> directive: \<^verbatim>\<open>matches[1] / 1000\<close>, or \<open>0\<close>.\<close>

definition parse_offset :: "string \<Rightarrow> jsnum" where
  "parse_offset allText =
     (case find_offset allText of
        None \<Rightarrow> Fin 0
      | Some m \<Rightarrow> js_div (string_to_number m) (Fin 1000))"

text \<open>\<^verbatim>\<open>a[index]\<close> for an index that the loop counts: the element, or \<^verbatim>\<open>undefined\<close>.\<close>

definition tim_at :: "jsnum list \<Rightarrow> nat \<Rightarrow> jsval" where
  "tim_at tim index = (if index < length tim then Num (tim ! index) else Undefined)"

text \<open>
  The callback of \<^verbatim>\<open>$.map\<close>: a word for every item that is neither empty nor the bare
  line-break marker (an item for which the callback returns nothing is dropped). The time
  is \<^verbatim>\<open>tms[index] + offset\<close>, where \<^verbatim>\<open>index\<close> is the position of the item in the array
  that is mapped.
\<close>

fun map_items :: "jsnum list \<Rightarrow> jsnum \<Rightarrow> nat \<Rightarrow> string list \<Rightarrow> word list" where
  "map_items tms offset index [] = []"
| "map_items tms offset index (item # items) =
     (if item \<noteq> [] \<and> item \<noteq> ''<br>''
      then \<lparr>wtext = trim item, time = Num (js_add (to_number (tim_at tms index)) offset)\<rparr>
             # map_items tms offset (Suc index) items
      else map_items tms offset (Suc index) items)"

text \<open>
  The function \<^verbatim>\<open>next\<close> on a plain LRC file: the lines that match give \<^verbatim>\<open>tim[i] = time\<close>
  and \<^verbatim>\<open>lyrics[i] = line[6]\<close>; the other lines leave holes, which \<^verbatim>\<open>filter\<close> skips.
\<close>

fun next_plain :: "string list \<Rightarrow> (jsnum \<times> string) list" where
  "next_plain [] = []"
| "next_plain (l # ls) =
     (case match_line l of
        None \<Rightarrow> next_plain ls
      | Some (g2, g4, g6) \<Rightarrow> (tag_time g2 g4, g6) # next_plain ls)"

text \<open>
  The plain branch of \<^verbatim>\<open>processLyrics\<close>. \<^verbatim>\<open>tim.filter(defined)\<close> keeps every Number, and
  \<^verbatim>\<open>lyrics.filter(defined)\<close> drops a text equal to \<^verbatim>\<open>undefined\<close>. Every line is split at
  whitespace and mapped with \<^verbatim>\<open>time: tim[index] + offset\<close>: the index is that of the
  word in its line, and \<^verbatim>\<open>tim\<close> is the array of the line times.
\<close>

definition process_plain :: "string list \<Rightarrow> jsnum \<Rightarrow> word list" where
  "process_plain allTextLines offset =
     (let parsed = next_plain allTextLines;
          tim = map fst parsed;
          lyrics = filter (\<lambda>l. l \<noteq> ''undefined'') (map snd parsed)
      in concat (map (\<lambda>l. map_items tim offset 0 (split_spaces l)) lyrics))"

text \<open>
  One matching line of an Enhanced LRC file in \<^verbatim>\<open>next\<close>: the arrays \<^verbatim>\<open>tim[i]\<close> and
  \<^verbatim>\<open>lyrics[i]\<close>. When the rest of the line has no match for the first-word expression,
  \<^verbatim>\<open>tmp\<close> is null and \<^verbatim>\<open>tmp[0]\<close> throws.
\<close>

definition enhanced_line :: "string \<times> string \<times> string \<Rightarrow> error + (jsnum list \<times> string list)" where
  "enhanced_line g =
     (case g of (g2, g4, g6) \<Rightarrow>
        (case first_token g6 of
           None \<Rightarrow> Inl TypeError
         | Some tmp \<Rightarrow>
             (let ms = inline_matches g6;
                  closing = (case find_last_tag g6 of None \<Rightarrow> [] | Some (m, s) \<Rightarrow> [tag_time m s])
              in Inr (tag_time g2 g4 # map (\<lambda>(m, s, w). tag_time m s) ms @ closing,
                      trim tmp # map (\<lambda>(m, s, w). w) ms))))"

fun next_enhanced :: "string list \<Rightarrow> error + (jsnum list \<times> string list) list" where
  "next_enhanced [] = Inr []"
| "next_enhanced (l # ls) =
     (case match_line l of
        None \<Rightarrow> next_enhanced ls
      | Some g \<Rightarrow>
          (case enhanced_line g of
             Inl e \<Rightarrow> Inl e
           | Inr p \<Rightarrow> (case next_enhanced ls of Inl e \<Rightarrow> Inl e | Inr ps \<Rightarrow> Inr (p # ps))))"

text \<open>
  The enhanced branch of \<^verbatim>\<open>processLyrics\<close>, \<^verbatim>\<open>for (var i = 0; i < lyrics.length; i++)\<close>
  with \<^verbatim>\<open>time: tim[i][index] + offset\<close>. The filter drops an array of \<^verbatim>\<open>lyrics\<close> whose
  string is \<^verbatim>\<open>undefined\<close> and keeps every array of \<^verbatim>\<open>tim\<close>; reading \<^verbatim>\<open>tim[i][index]\<close> of a
  missing \<^verbatim>\<open>tim[i]\<close> would throw.
\<close>

fun enhanced_words :: "jsnum list list \<Rightarrow> jsnum \<Rightarrow> nat \<Rightarrow> string list list \<Rightarrow> error + word list" where
  "enhanced_words tim offset i [] = Inr []"
| "enhanced_words tim offset i (l # ls) =
     (if i < length tim then
        (case enhanced_words tim offset (Suc i) ls of
           Inl e \<Rightarrow> Inl e
         | Inr ws \<Rightarrow> Inr (map_items (tim ! i) offset 0 l @ ws))
      else if list_all (\<lambda>item. item = [] \<or> item = ''<br>'') l
           then enhanced_words tim offset (Suc i) ls
           else Inl TypeError)"

definition process_enhanced :: "string list \<Rightarrow> jsnum \<Rightarrow> error + word list" where
  "process_enhanced allTextLines offset =
     (case next_enhanced allTextLines of
        Inl e \<Rightarrow> Inl e
      | Inr parsed \<Rightarrow>
          enhanced_words (map fst parsed) offset 0
            (filter (\<lambda>l. join_commas l \<noteq> ''undefined'') (map snd parsed)))"

text \<open>\<^verbatim>\<open>Lyrics.fromLRC\<close>: the words of the timeline; its duration is the second argument
  as it is.\<close>

definition fromLRC :: "string \<Rightarrow> jsval \<Rightarrow> error + word list" where
  "fromLRC text duration =
     (let allText = normalise text;
          offset = parse_offset allText;
          allTextLines = split_lines allText;
          isElrc = has_inline_tag (join_commas allTextLines)
      in if isElrc then process_enhanced allTextLines offset
         else Inr (process_plain allTextLines offset))"



section \<open>Predicates used to state the properties\<close>

text \<open>A word has an explicit time when its \<^verbatim>\<open>time\<close> field holds a Number.\<close>

fun has_time :: "jsval \<Rightarrow> bool" where
  "has_time (Num n) = True"
| "has_time _ = False"

text \<open>Monotonicity over the words with an explicit time, and over the words whose time
  is truthy (a Number other than zero and NaN).\<close>

definition monotone :: "word list \<Rightarrow> bool" where
  "monotone ws =
     (\<forall>j < length ws. \<forall>i < j. has_time (time (ws ! i)) \<and> has_time (time (ws ! j))
        \<longrightarrow> js_le (to_number (time (ws ! i))) (to_number (time (ws ! j))))"

definition monotone_truthy :: "word list \<Rightarrow> bool" where
  "monotone_truthy ws =
     (\<forall>j < length ws. \<forall>i < j. truthy (time (ws ! i)) \<and> truthy (time (ws ! j))
        \<longrightarrow> js_le (to_number (time (ws ! i))) (to_number (time (ws ! j))))"

text \<open>The timeline with every explicit time \<open>0\<close> replaced by \<^verbatim>\<open>null\<close>.\<close>

definition untime_zero :: "word \<Rightarrow> word" where
  "untime_zero w = (if time w = Num (Fin 0) then w\<lparr>time := Null\<rparr> else w)"
















section \<open>Properties of the timeline operations\<close>

lemma floor_rat_numeral_div [simp]: "\<lfloor>(numeral a :: rat) / numeral b\<rfloor> = numeral a div numeral b"
  by (metis floor_divide_of_int_eq of_int_numeral)

lemma floor_rat_neg_numeral_div [simp]:
  "\<lfloor>- ((numeral a :: rat) / numeral b)\<rfloor> = - numeral a div numeral b"
  by (metis floor_divide_of_int_eq of_int_numeral of_int_minus minus_divide_left)

lemma floor_rat_one_div [simp]: "\<lfloor>(1 :: rat) / numeral b\<rfloor> = 1 div numeral b"
  by (metis floor_divide_of_int_eq of_int_numeral of_int_1)

lemma array_index_None_iff:
  "array_index ws (Fin r) = None \<longleftrightarrow> \<not> (of_int \<lfloor>r\<rfloor> = r \<and> 0 \<le> r \<and> r < of_nat (length ws))"
  by (simp add: array_index_def)

text \<open>
  Claim C8. For every index outside \<open>[0, length)\<close>, \<^verbatim>\<open>setTimeOfWord(index, time)\<close> fails:
  \<^verbatim>\<open>this[index]\<close> is \<^verbatim>\<open>undefined\<close> and reading its \<^verbatim>\<open>time\<close> throws. This holds for
  every Number that is not an index of the array: negative, too large, fractional, NaN or
  infinite.
\<close>

theorem setTimeOfWord_out_of_range:
  "\<not> (\<exists>k. index = Fin (of_nat k) \<and> k < length ws) \<Longrightarrow> setTimeOfWord ws index t = Inl TypeError"
proof -
  assume out: "\<not> (\<exists>k. index = Fin (of_nat k) \<and> k < length ws)"
  have "array_index ws index = None"
  proof (cases index)
    case (Fin r)
    show ?thesis
    proof (rule ccontr)
      assume "array_index ws index \<noteq> None"
      with Fin have r: "of_int \<lfloor>r\<rfloor> = r" "0 \<le> r" "r < of_nat (length ws)"
        by (auto simp: array_index_None_iff)
      from r(1,2) have "r = of_nat (nat \<lfloor>r\<rfloor>)"
        by (metis of_int_0_le_iff of_nat_nat)
      moreover from this r(3) have "nat \<lfloor>r\<rfloor> < length ws"
        by (metis of_nat_less_iff)
      ultimately show False using out Fin by blast
    qed
  qed (simp_all add: array_index_def)
  then show ?thesis by (simp add: setTimeOfWord_def)
qed

theorem setTimeOfWord_out_of_range_witness:
  "setTimeOfWord [\<lparr>wtext = ''a'', time = Null\<rparr>, \<lparr>wtext = ''b'', time = Null\<rparr>] (Fin 2) (Num (Fin 5))
     = Inl TypeError"
proof (rule setTimeOfWord_out_of_range)
  show "\<not> (\<exists>k. Fin 2 = Fin (of_nat k)
          \<and> k < length [\<lparr>wtext = ''a'', time = Null\<rparr>, \<lparr>wtext = ''b'', time = Null\<rparr>])"
  proof
    assume "\<exists>k. Fin 2 = Fin (of_nat k)
          \<and> k < length [\<lparr>wtext = ''a'', time = Null\<rparr>, \<lparr>wtext = ''b'', time = Null\<rparr>]"
    then obtain k :: nat where k: "(2::rat) = of_nat k" "k < 2" by auto
    from k(1) have "k = 2" by (metis of_nat_eq_iff of_nat_numeral)
    with k(2) show False by simp
  qed
qed

subsection \<open>The repair passes\<close>
lemma forward_pass_length: "length (fst (forward_pass t i ws ev)) = length ws"
  by (induction t i ws ev rule: forward_pass.induct) (subst forward_pass.simps, simp)

lemma forward_pass_time:
  "j < length ws \<Longrightarrow> time (fst (forward_pass t i ws ev) ! j) =
     (if i \<le> j \<and> truthy (time (ws ! j)) \<and> js_le (to_number (time (ws ! j))) t then Null
      else time (ws ! j))"
proof (induction t i ws ev rule: forward_pass.induct)
  case (1 t i ws ev)
  show ?case
  proof (cases "i < length ws")
    case False
    with "1.prems" show ?thesis by (subst forward_pass.simps) simp
  next
    case True
    show ?thesis
    proof (cases "truthy (time (ws ! i)) \<and> js_le (to_number (time (ws ! i))) t")
      case c: True
      have "time (fst (forward_pass t (Suc i) (ws[i := (ws ! i)\<lparr>time := Null\<rparr>]) (ev @ [(i, Null)])) ! j) =
         (if Suc i \<le> j \<and> truthy (time (ws[i := (ws ! i)\<lparr>time := Null\<rparr>] ! j))
              \<and> js_le (to_number (time (ws[i := (ws ! i)\<lparr>time := Null\<rparr>] ! j))) t then Null
          else time (ws[i := (ws ! i)\<lparr>time := Null\<rparr>] ! j))"
        using "1.IH"(1) [OF True c] "1.prems" by simp
      then show ?thesis using True c "1.prems"
        by (subst forward_pass.simps) (cases "j = i"; auto simp: nth_list_update)
    next
      case c: False
      have "time (fst (forward_pass t (Suc i) ws ev) ! j) =
         (if Suc i \<le> j \<and> truthy (time (ws ! j)) \<and> js_le (to_number (time (ws ! j))) t then Null
          else time (ws ! j))"
        using "1.IH"(2) [OF True c] "1.prems" by simp
      then show ?thesis using True c "1.prems"
        by (subst forward_pass.simps) (cases "j = i"; auto)
    qed
  qed
qed

lemma backward_pass_length: "length (fst (backward_pass t n ws ev)) = length ws"
  by (induction n arbitrary: ws ev) auto

lemma backward_pass_time:
  "j < length ws \<Longrightarrow> n \<le> length ws \<Longrightarrow> time (fst (backward_pass t n ws ev) ! j) =
     (if j < n \<and> truthy (time (ws ! j)) \<and> js_ge (to_number (time (ws ! j))) t then Null
      else time (ws ! j))"
proof (induction n arbitrary: ws ev)
  case 0
  then show ?case by simp
next
  case (Suc n)
  then show ?case by (auto simp: nth_list_update less_Suc_eq)
qed

lemma array_index_Some: "array_index ws i = Some k \<Longrightarrow> k < length ws"
  by (auto simp: array_index_def split: jsnum.splits if_splits)

lemma truthy_total:
  "truthy a \<Longrightarrow> truthy b \<Longrightarrow> \<not> js_le (to_number a) (to_number b) \<Longrightarrow> js_le (to_number b) (to_number a)"
  by (cases a rule: truthy.cases; cases b rule: truthy.cases) auto

lemma setTimeOfWord_length:
  assumes "setTimeOfWord ws index t = Inr (ws', ev)"
  shows "length ws' = length ws"
proof -
  from assms obtain k where k: "array_index ws index = Some k"
    by (auto simp: setTimeOfWord_def split: option.splits)
  show ?thesis
  proof (cases "nullish t")
    case True
    with assms k show ?thesis by (auto simp: setTimeOfWord_def Let_def)
  next
    case False
    obtain ws2 ev2 where f: "forward_pass (to_number t) (Suc k) (ws[k := (ws ! k)\<lparr>time := t\<rparr>])
          (if \<not> loose_eq (time (ws ! k)) t then [(k, t)] else []) = (ws2, ev2)"
      by (cases "forward_pass (to_number t) (Suc k) (ws[k := (ws ! k)\<lparr>time := t\<rparr>])
          (if \<not> loose_eq (time (ws ! k)) t then [(k, t)] else [])") auto
    from f have l2: "length ws2 = length ws"
      using forward_pass_length [of "to_number t" "Suc k" "ws[k := (ws ! k)\<lparr>time := t\<rparr>]"
          "if \<not> loose_eq (time (ws ! k)) t then [(k, t)] else []"] by simp
    from assms k False f have "ws' = fst (backward_pass (to_number t) k ws2 ev2)"
      by (auto simp: setTimeOfWord_def Let_def)
    with l2 show ?thesis by (simp add: backward_pass_length)
  qed
qed

lemma setTimeOfWord_time:
  assumes "setTimeOfWord ws index t = Inr (ws', ev)" and k: "array_index ws index = Some k"
    and j: "j < length ws"
  shows "time (ws' ! j) =
     (if j = k then t
      else if nullish t then time (ws ! j)
      else if k < j \<and> truthy (time (ws ! j)) \<and> js_le (to_number (time (ws ! j))) (to_number t) then Null
      else if j < k \<and> truthy (time (ws ! j)) \<and> js_ge (to_number (time (ws ! j))) (to_number t) then Null
      else time (ws ! j))"
proof (cases "nullish t")
  case True
  with assms show ?thesis by (auto simp: setTimeOfWord_def Let_def nth_list_update)
next
  case False
  have kl: "k < length ws" using k by (rule array_index_Some)
  define ws1 where "ws1 = ws[k := (ws ! k)\<lparr>time := t\<rparr>]"
  define ev1 where "ev1 = (if \<not> loose_eq (time (ws ! k)) t then [(k, t)] else [])"
  obtain ws2 ev2 where f: "forward_pass (to_number t) (Suc k) ws1 ev1 = (ws2, ev2)"
    by (cases "forward_pass (to_number t) (Suc k) ws1 ev1") auto
  have l1: "length ws1 = length ws" by (simp add: ws1_def)
  from f have l2: "length ws2 = length ws"
    using forward_pass_length [of "to_number t" "Suc k" ws1 ev1] l1 by simp
  have t2: "time (ws2 ! j) =
     (if Suc k \<le> j \<and> truthy (time (ws1 ! j)) \<and> js_le (to_number (time (ws1 ! j))) (to_number t)
      then Null else time (ws1 ! j))"
    using forward_pass_time [of j ws1 "to_number t" "Suc k" ev1] f j l1 by simp
  from assms(1) k False f have w': "ws' = fst (backward_pass (to_number t) k ws2 ev2)"
    by (auto simp: setTimeOfWord_def Let_def ws1_def ev1_def)
  have t3: "time (ws' ! j) =
     (if j < k \<and> truthy (time (ws2 ! j)) \<and> js_ge (to_number (time (ws2 ! j))) (to_number t)
      then Null else time (ws2 ! j))"
    unfolding w' using backward_pass_time [of j ws2 k "to_number t" ev2] j l2 kl by simp
  have t1: "time (ws1 ! j) = (if j = k then t else time (ws ! j))"
    using j by (simp add: ws1_def nth_list_update)
  show ?thesis using False unfolding t3 t2 t1 by auto
qed

lemma monotone_truthy_setTimeOfWord:
  assumes m: "monotone_truthy ws" and s: "setTimeOfWord ws index t = Inr (ws', ev)"
  shows "monotone_truthy ws'"
proof -
  from s obtain k where k: "array_index ws index = Some k"
    by (auto simp: setTimeOfWord_def split: option.splits)
  have len: "length ws' = length ws" using s by (rule setTimeOfWord_length)
  note tm = setTimeOfWord_time [OF s k]
  show ?thesis
    unfolding monotone_truthy_def
  proof (intro allI impI)
    fix j i
    assume j: "j < length ws'" and i: "i < j"
      and tr: "truthy (time (ws' ! i)) \<and> truthy (time (ws' ! j))"
    from j i len have jl: "j < length ws" and il: "i < length ws" by auto
    have old: "truthy (time (ws ! i)) \<and> truthy (time (ws ! j))
        \<longrightarrow> js_le (to_number (time (ws ! i))) (to_number (time (ws ! j)))"
      using m jl i by (simp add: monotone_truthy_def)
    consider (a) "i = k" | (b) "j = k" | (c) "i \<noteq> k" "j \<noteq> k" by blast
    then show "js_le (to_number (time (ws' ! i))) (to_number (time (ws' ! j)))"
    proof cases
      case a
      then have jk: "k < j" "j \<noteq> k" using i by auto
      have ti: "time (ws' ! i) = t" using tm [OF il] a by simp
      with tr have tt: "truthy t" by simp
      then have nn: "\<not> nullish t" by (auto simp: nullish_def)
      from tm [OF jl] jk nn tr have keep: "time (ws' ! j) = time (ws ! j)"
        by (auto split: if_splits)
      with tm [OF jl] jk nn tr have "\<not> js_le (to_number (time (ws ! j))) (to_number t)"
        by (auto split: if_splits)
      with tt tr keep have "js_le (to_number t) (to_number (time (ws ! j)))"
        by (auto intro: truthy_total)
      with ti keep show ?thesis by simp
    next
      case b
      then have ik: "i < k" "i \<noteq> k" using i by auto
      have tj: "time (ws' ! j) = t" using tm [OF jl] b by simp
      with tr have tt: "truthy t" by simp
      then have nn: "\<not> nullish t" by (auto simp: nullish_def)
      from tm [OF il] ik nn tr have keep: "time (ws' ! i) = time (ws ! i)"
        by (auto split: if_splits)
      with tm [OF il] ik nn tr have "\<not> js_ge (to_number (time (ws ! i))) (to_number t)"
        by (auto split: if_splits)
      then have "\<not> js_le (to_number t) (to_number (time (ws ! i)))" by (simp add: js_ge_def)
      with tt tr keep have "js_le (to_number (time (ws ! i))) (to_number t)"
        by (auto intro: truthy_total)
      with tj keep show ?thesis by simp
    next
      case c
      from tm [OF il] c(1) tr have ki: "time (ws' ! i) = time (ws ! i)"
        by (auto split: if_splits)
      from tm [OF jl] c(2) tr have kj: "time (ws' ! j) = time (ws ! j)"
        by (auto split: if_splits)
      from old tr ki kj show ?thesis by simp
    qed
  qed
qed

lemma monotone_truthy_run_calls_aux:
  "monotone_truthy ws \<Longrightarrow> monotone_truthy (run_calls ws calls)"
proof (induction calls arbitrary: ws)
  case Nil
  then show ?case by simp
next
  case (Cons c cs)
  obtain index t where c: "c = (index, t)" by (cases c)
  show ?case
  proof (cases "setTimeOfWord ws index t")
    case (Inl e)
    with c Cons show ?thesis by simp
  next
    case (Inr r)
    obtain ws' ev where r: "r = (ws', ev)" by (cases r)
    with Inr Cons.prems have "monotone_truthy ws'"
      by (auto intro: monotone_truthy_setTimeOfWord)
    with Cons.IH c Inr r show ?thesis by simp
  qed
qed

text \<open>
  Claim C1, as stated: after any sequence of \<^verbatim>\<open>setTimeOfWord\<close> calls, every pair of
  words with explicit times is in order. It fails on a timeline of two untimed words:
  \<^verbatim>\<open>setTimeOfWord(1, 0)\<close> followed by \<^verbatim>\<open>setTimeOfWord(0, 5)\<close> leaves the times \<open>5, 0\<close>, because
  the forward pass tests \<^verbatim>\<open>this[i].time && ...\<close> and the time \<open>0\<close> is falsy.
\<close>

theorem monotone_run_calls_counterexample:
  "monotone [\<lparr>wtext = ''a'', time = Null\<rparr>, \<lparr>wtext = ''b'', time = Null\<rparr>] \<and>
   \<not> monotone (run_calls [\<lparr>wtext = ''a'', time = Null\<rparr>, \<lparr>wtext = ''b'', time = Null\<rparr>]
         [(Fin 1, Num (Fin 0)), (Fin 0, Num (Fin 5))])"
proof -
  have r: "run_calls [\<lparr>wtext = ''a'', time = Null\<rparr>, \<lparr>wtext = ''b'', time = Null\<rparr>]
     [(Fin 1, Num (Fin 0)), (Fin 0, Num (Fin 5))]
     = [\<lparr>wtext = ''a'', time = Num (Fin 5)\<rparr>, \<lparr>wtext = ''b'', time = Num (Fin 0)\<rparr>]"
    by (simp add: setTimeOfWord_def array_index_def forward_pass.simps nullish_def js_ge_def Let_def)
  have "\<not> monotone [\<lparr>wtext = ''a'', time = Num (Fin 5)\<rparr>, \<lparr>wtext = ''b'', time = Num (Fin 0)\<rparr>]"
    unfolding monotone_def by (simp add: less_Suc_eq)
  moreover have "monotone [\<lparr>wtext = ''a'', time = Null\<rparr>, \<lparr>wtext = ''b'', time = Null\<rparr>]"
    unfolding monotone_def by (simp add: less_Suc_eq)
  ultimately show ?thesis unfolding r by simp
qed

text \<open>
  Claim C1, amended: the invariant the code keeps is monotonicity over the words whose time
  is truthy (a Number other than \<open>0\<close> and NaN), the words every operation of the timeline
  takes as timed. If the timeline satisfies it before a sequence of \<^verbatim>\<open>setTimeOfWord\<close>
  calls (an untimed timeline does), it satisfies it after the sequence, whatever the
  indices and times of the calls, failed calls included.
\<close>

theorem monotone_truthy_run_calls:
  "monotone_truthy ws \<Longrightarrow> monotone_truthy (run_calls ws calls)"
  by (rule monotone_truthy_run_calls_aux)

theorem monotone_truthy_run_calls_witness:
  "monotone_truthy [\<lparr>wtext = ''a'', time = Null\<rparr>, \<lparr>wtext = ''b'', time = Null\<rparr>, \<lparr>wtext = ''c'', time = Null\<rparr>]
   \<and> map time (run_calls [\<lparr>wtext = ''a'', time = Null\<rparr>, \<lparr>wtext = ''b'', time = Null\<rparr>, \<lparr>wtext = ''c'', time = Null\<rparr>]
         [(Fin 1, Num (Fin 5)), (Fin 0, Num (Fin 7)), (Fin 2, Num (Fin 9))]) = [Num (Fin 7), Null, Num (Fin 9)]
   \<and> monotone_truthy (run_calls [\<lparr>wtext = ''a'', time = Null\<rparr>, \<lparr>wtext = ''b'', time = Null\<rparr>, \<lparr>wtext = ''c'', time = Null\<rparr>]
         [(Fin 1, Num (Fin 5)), (Fin 0, Num (Fin 7)), (Fin 2, Num (Fin 9))])"
proof -
  have a: "monotone_truthy [\<lparr>wtext = ''a'', time = Null\<rparr>, \<lparr>wtext = ''b'', time = Null\<rparr>, \<lparr>wtext = ''c'', time = Null\<rparr>]
   \<and> map time (run_calls [\<lparr>wtext = ''a'', time = Null\<rparr>, \<lparr>wtext = ''b'', time = Null\<rparr>, \<lparr>wtext = ''c'', time = Null\<rparr>]
         [(Fin 1, Num (Fin 5)), (Fin 0, Num (Fin 7)), (Fin 2, Num (Fin 9))]) = [Num (Fin 7), Null, Num (Fin 9)]"
    by (simp add: setTimeOfWord_def array_index_def forward_pass.simps nullish_def js_ge_def Let_def
        monotone_truthy_def less_Suc_eq eval_nat_numeral)
  then have "monotone_truthy (run_calls [\<lparr>wtext = ''a'', time = Null\<rparr>, \<lparr>wtext = ''b'', time = Null\<rparr>, \<lparr>wtext = ''c'', time = Null\<rparr>]
         [(Fin 1, Num (Fin 5)), (Fin 0, Num (Fin 7)), (Fin 2, Num (Fin 9))])"
    using monotone_truthy_run_calls
      [of "[\<lparr>wtext = ''a'', time = Null\<rparr>, \<lparr>wtext = ''b'', time = Null\<rparr>, \<lparr>wtext = ''c'', time = Null\<rparr>]"
          "[(Fin 1, Num (Fin 5)), (Fin 0, Num (Fin 7)), (Fin 2, Num (Fin 9))]"]
    by blast
  with a show ?thesis by blast
qed

subsection \<open>The time formatter at ten milliseconds\<close>

text \<open>
  Claim C6. \<^verbatim>\<open>Lyrics.toTimer(65.25)\<close> is \<^verbatim>\<open>01:05.250\<close>, but the millisecond field is not
  always three digits: the test \<^verbatim>\<open>ms > 10\<close> sends the value \<open>10\<close> to the branch that
  prepends two zeros, so \<^verbatim>\<open>Lyrics.toTimer(0.01)\<close> is \<^verbatim>\<open>00:00.0010\<close>.
\<close>

theorem toTimer_ten_milliseconds:
  "toTimer (Num (Fin (261 / 4))) False = ''01:05.250'' \<and>
   toTimer (Num (Fin (1 / 100))) False = ''00:00.0010''"
  by (simp add: toTimer_def field2_def field3_def js_ge_def js_gt_def js_sub_def rat_trunc_def
       int_to_string_def digits_of.simps digit_char_def Let_def)

subsection \<open>getIndexForTime beyond the last word\<close>

text \<open>
  Claim C10. On a timeline of two untimed words with duration \<open>10\<close>, the timestamp \<open>30\<close>
  (three times the duration, and the last word is untimed) gives the index \<open>3\<close>, which is
  not below the length: the interpolated index is returned without clamping.
\<close>

theorem getIndexForTime_unclamped:
  "getIndexForTime [\<lparr>wtext = ''a'', time = Null\<rparr>, \<lparr>wtext = ''b'', time = Null\<rparr>] (Num (Fin 10)) (Fin 30)
     = Inr (Num (Fin 3))
   \<and> \<not> 3 < length [\<lparr>wtext = ''a'', time = Null\<rparr>, \<lparr>wtext = ''b'', time = Null\<rparr>]"
  by (simp add: getIndexForTime_def index_loop.simps Let_def js_ge_def js_sub_def parseInt_num_def rat_trunc_def)

subsection \<open>A time of zero is taken as no time\<close>

lemma truthy_untime_zero [simp]: "truthy (time (untime_zero w)) = truthy (time w)"
  by (simp add: untime_zero_def)

lemma time_untime_zero: "truthy (time w) \<Longrightarrow> time (untime_zero w) = time w"
  by (auto simp: untime_zero_def)

lemma index_loop_untime_zero:
  "index_loop (map untime_zero ws) d ts i et ei = index_loop ws d ts i et ei"
proof (induction ws d ts i et ei rule: index_loop.induct)
  case (1 ws d ts i et ei)
  show ?case
  proof (cases "i < length ws")
    case False
    then show ?thesis
      by (simp only: index_loop.simps [of "map untime_zero ws" d ts i et ei]
            index_loop.simps [of ws d ts i et ei]) simp
  next
    case True
    note IH = "1.IH" [OF True refl refl refl]
    show ?thesis
    proof (cases "truthy (time (ws ! i))")
      case t: True
      then have e: "time (untime_zero (ws ! i)) = time (ws ! i)" by (rule time_untime_zero)
      show ?thesis
        using True t e IH
        by (simp only: index_loop.simps [of "map untime_zero ws" d ts i et ei]
            index_loop.simps [of ws d ts i et ei]) (simp add: Let_def)
    next
      case f: False
      show ?thesis
        using True f IH
        by (simp only: index_loop.simps [of "map untime_zero ws" d ts i et ei]
            index_loop.simps [of ws d ts i et ei]) (simp add: Let_def)
    qed
  qed
qed

lemma getIndexForTime_untime_zero:
  "getIndexForTime (map untime_zero ws) d ts = getIndexForTime ws d ts"
  by (simp add: getIndexForTime_def index_loop_untime_zero)

lemma array_index_map [simp]: "array_index (map f ws) i = array_index ws i"
  by (cases i) (simp_all add: array_index_def)

lemma earlier_loop_untime_zero: "earlier_loop (map untime_zero ws) i = earlier_loop ws i"
proof (induction ws i rule: earlier_loop.induct)
  case (1 ws i)
  show ?case
  proof (cases "0 \<le> i")
    case False
    then show ?thesis
      by (simp only: earlier_loop.simps [of "map untime_zero ws" i] earlier_loop.simps [of ws i]) simp
  next
    case True
    show ?thesis
    proof (cases "array_index ws (Fin i)")
      case None
      with True show ?thesis
        by (simp only: earlier_loop.simps [of "map untime_zero ws" i] earlier_loop.simps [of ws i]) simp
    next
      case (Some k)
      then have k: "k < length ws" by (rule array_index_Some)
      show ?thesis
      proof (cases "truthy (time (ws ! k))")
        case t: True
        with True Some k show ?thesis
          by (simp only: earlier_loop.simps [of "map untime_zero ws" i] earlier_loop.simps [of ws i])
             (simp add: time_untime_zero)
      next
        case f: False
        with True Some k "1.IH" [OF True Some f] show ?thesis
          by (simp only: earlier_loop.simps [of "map untime_zero ws" i] earlier_loop.simps [of ws i]) simp
      qed
    qed
  qed
qed

lemma later_loop_untime_zero: "later_loop (map untime_zero ws) i = later_loop ws i"
proof (induction ws i rule: later_loop.induct)
  case (1 ws i)
  show ?case
  proof (cases "i < of_nat (length ws)")
    case False
    then show ?thesis
      by (simp only: later_loop.simps [of "map untime_zero ws" i] later_loop.simps [of ws i]) simp
  next
    case True
    show ?thesis
    proof (cases "array_index ws (Fin i)")
      case None
      with True show ?thesis
        by (simp only: later_loop.simps [of "map untime_zero ws" i] later_loop.simps [of ws i]) simp
    next
      case (Some k)
      then have k: "k < length ws" by (rule array_index_Some)
      show ?thesis
      proof (cases "truthy (time (ws ! k))")
        case t: True
        with True Some k show ?thesis
          by (simp only: later_loop.simps [of "map untime_zero ws" i] later_loop.simps [of ws i])
             (simp add: time_untime_zero)
      next
        case f: False
        with True Some k "1.IH" [OF True Some f] show ?thesis
          by (simp only: later_loop.simps [of "map untime_zero ws" i] later_loop.simps [of ws i]) simp
      qed
    qed
  qed
qed

lemma earlier_search_untime_zero: "earlier_search (map untime_zero ws) i = earlier_search ws i"
  by (cases i) (simp_all add: earlier_search_def earlier_loop_untime_zero)

lemma later_search_untime_zero: "later_search (map untime_zero ws) i = later_search ws i"
  by (cases i) (simp_all add: later_search_def later_loop_untime_zero)

lemma getApproximateTime_untime_zero:
  "getApproximateTime (map untime_zero ws) d arg = getApproximateTime ws d arg"
  unfolding getApproximateTime_def earlier_search_untime_zero later_search_untime_zero length_map
  by (rule refl)

lemma setTimeOfWord_keeps_zero:
  assumes s: "setTimeOfWord ws index t = Inr (ws', ev)" and j: "j < length ws"
    and ne: "index \<noteq> Fin (of_nat j)" and z: "time (ws ! j) = Num (Fin 0)"
  shows "time (ws' ! j) = Num (Fin 0)"
proof -
  from s obtain k where k: "array_index ws index = Some k"
    by (auto simp: setTimeOfWord_def split: option.splits)
  then have "index = Fin (of_nat k)"
    by (auto simp: array_index_def split: jsnum.splits if_splits)
  with ne have "j \<noteq> k" by auto
  with setTimeOfWord_time [OF s k j] z show ?thesis by simp
qed

text \<open>
  Claim C9. Every test of the timeline operations is on the truthiness of the time, so an
  explicit time \<open>0\<close> counts as no time: the repair passes of \<^verbatim>\<open>setTimeOfWord\<close> leave a
  word at time \<open>0\<close> as it is, whatever time is being set at another index, and
  \<^verbatim>\<open>getIndexForTime\<close> and \<^verbatim>\<open>getApproximateTime\<close> give the same result as on the timeline
  where every time \<open>0\<close> is replaced by \<^verbatim>\<open>null\<close>.
\<close>

theorem zero_time_is_untimed:
  "(setTimeOfWord ws index t = Inr (ws', ev) \<and> j < length ws \<and> index \<noteq> Fin (of_nat j)
      \<and> time (ws ! j) = Num (Fin 0) \<longrightarrow> time (ws' ! j) = Num (Fin 0))
   \<and> getIndexForTime (map untime_zero ws) d ts = getIndexForTime ws d ts
   \<and> getApproximateTime (map untime_zero ws) d arg = getApproximateTime ws d arg"
  using setTimeOfWord_keeps_zero [of ws index t ws' ev j]
  by (simp add: getIndexForTime_untime_zero getApproximateTime_untime_zero)

theorem zero_time_is_untimed_witness:
  "setTimeOfWord [\<lparr>wtext = ''a'', time = Null\<rparr>, \<lparr>wtext = ''b'', time = Num (Fin 0)\<rparr>] (Fin 0) (Num (Fin 5))
     = Inr ([\<lparr>wtext = ''a'', time = Num (Fin 5)\<rparr>, \<lparr>wtext = ''b'', time = Num (Fin 0)\<rparr>], [(0, Num (Fin 5))])
   \<and> time ([\<lparr>wtext = ''a'', time = Num (Fin 5)\<rparr>, \<lparr>wtext = ''b'', time = Num (Fin 0)\<rparr>] ! 1) = Num (Fin 0)
   \<and> getIndexForTime (map untime_zero [\<lparr>wtext = ''a'', time = Null\<rparr>, \<lparr>wtext = ''b'', time = Num (Fin 0)\<rparr>])
         (Num (Fin 10)) (Fin 5)
       = getIndexForTime [\<lparr>wtext = ''a'', time = Null\<rparr>, \<lparr>wtext = ''b'', time = Num (Fin 0)\<rparr>]
         (Num (Fin 10)) (Fin 5)
   \<and> getApproximateTime (map untime_zero [\<lparr>wtext = ''a'', time = Null\<rparr>, \<lparr>wtext = ''b'', time = Num (Fin 0)\<rparr>])
         (Num (Fin 10)) (ANum (Fin 0))
       = getApproximateTime [\<lparr>wtext = ''a'', time = Null\<rparr>, \<lparr>wtext = ''b'', time = Num (Fin 0)\<rparr>]
         (Num (Fin 10)) (ANum (Fin 0))"
proof -
  have s: "setTimeOfWord [\<lparr>wtext = ''a'', time = Null\<rparr>, \<lparr>wtext = ''b'', time = Num (Fin 0)\<rparr>] (Fin 0) (Num (Fin 5))
     = Inr ([\<lparr>wtext = ''a'', time = Num (Fin 5)\<rparr>, \<lparr>wtext = ''b'', time = Num (Fin 0)\<rparr>], [(0, Num (Fin 5))])"
    by (simp add: setTimeOfWord_def array_index_def forward_pass.simps nullish_def Let_def)
  have h: "(1::nat) < length [\<lparr>wtext = ''a'', time = Null\<rparr>, \<lparr>wtext = ''b'', time = Num (Fin 0)\<rparr>]
    \<and> Fin 0 \<noteq> Fin (of_nat 1)
    \<and> time ([\<lparr>wtext = ''a'', time = Null\<rparr>, \<lparr>wtext = ''b'', time = Num (Fin 0)\<rparr>] ! 1) = Num (Fin 0)"
    by simp
  show ?thesis
    using s h zero_time_is_untimed
      [of "[\<lparr>wtext = ''a'', time = Null\<rparr>, \<lparr>wtext = ''b'', time = Num (Fin 0)\<rparr>]" "Fin 0" "Num (Fin 5)"
          "[\<lparr>wtext = ''a'', time = Num (Fin 5)\<rparr>, \<lparr>wtext = ''b'', time = Num (Fin 0)\<rparr>]" "[(0, Num (Fin 5))]"
          1 "Num (Fin 10)" "Fin 5" "ANum (Fin 0)"]
    by blast
qed

subsection \<open>getIndexForTime at the time of a word\<close>











subsection \<open>When getApproximateTime fails\<close>









lemma later_loop_beyond: "of_nat (length ws) \<le> i \<Longrightarrow> later_loop ws i = Inr None"
  by (subst later_loop.simps) simp









section \<open>Properties of the LRC codec\<close>




text \<open>
  Claim C2. In a plain LRC file every word of a line should get the time of its line. The
  plain branch of \<^verbatim>\<open>processLyrics\<close> reads \<^verbatim>\<open>tim[index]\<close> with the index of the word in its
  line, where the enhanced branch reads \<^verbatim>\<open>tim[i][index]\<close>: the word at position \<open>k\<close> of any
  line gets the time of line \<open>k\<close> of the file. With two lines at \<open>1\<close> and \<open>5\<close>, the words of
  each line get \<open>1\<close> and \<open>5\<close>.
\<close>

theorem fromLRC_plain_word_index:
  "fromLRC (''[00:01.00]a b'' @ [nl] @ ''[00:05.00]c d'') (Num (Fin 10))
     = Inr [\<lparr>wtext = ''a'', time = Num (Fin 1)\<rparr>, \<lparr>wtext = ''b<br>'', time = Num (Fin 5)\<rparr>,
            \<lparr>wtext = ''c'', time = Num (Fin 1)\<rparr>, \<lparr>wtext = ''d'', time = Num (Fin 5)\<rparr>]"
  by code_simp

subsection \<open>The Enhanced LRC round trip\<close>




















































































lemma join_commas_comma: "CHR '','' \<in> set (join_commas (x # y # xs))"
  by simp











end
